theory Spec2Isabelle
  imports Complex_Main "HOL-Library.Sublist"
begin

section \<open>Data model\<close>

text \<open>
  The transaction analysis script \<^verbatim>\<open>src/lab1/script.js\<close> works on an array of plain
  objects with seven fields. Amounts are JavaScript numbers; they are modelled as reals,
  which is exact for the sample data (small integers, whose sums and quotient a double
  represents exactly). Strings are lists of characters.
\<close>

record Transaction =
  transaction_id :: string
  transaction_date :: string
  transaction_amount :: real
  transaction_type :: string
  transaction_description :: string
  merchant_name :: string
  card_type :: string

text \<open>The array \<^verbatim>\<open>transactions\<close> of lines 44-90.\<close>

definition transactions :: "Transaction list" where
  "transactions =
    [\<lparr>transaction_id = ''1'', transaction_date = ''2019-01-01'', transaction_amount = 100,
      transaction_type = ''debit'', transaction_description = ''Payment for groceries'',
      merchant_name = ''SuperMart'', card_type = ''debit''\<rparr>,
     \<lparr>transaction_id = ''2'', transaction_date = ''2019-01-05'', transaction_amount = 150,
      transaction_type = ''credit'', transaction_description = ''Refund for returned item'',
      merchant_name = ''SuperMart'', card_type = ''credit''\<rparr>,
     \<lparr>transaction_id = ''3'', transaction_date = ''2019-02-10'', transaction_amount = 50,
      transaction_type = ''debit'', transaction_description = ''Dinner with friends'',
      merchant_name = ''RestaurantABC'', card_type = ''debit''\<rparr>,
     \<lparr>transaction_id = ''4'', transaction_date = ''2019-02-15'', transaction_amount = 200,
      transaction_type = ''debit'', transaction_description = ''Electronics purchase'',
      merchant_name = ''TechStore'', card_type = ''credit''\<rparr>,
     \<lparr>transaction_id = ''5'', transaction_date = ''2019-03-20'', transaction_amount = 80,
      transaction_type = ''debit'', transaction_description = ''Clothing shopping'',
      merchant_name = ''FashionOutlet'', card_type = ''credit''\<rparr>]"

section \<open>The JavaScript runtime the script relies on\<close>

subsection \<open>String comparison\<close>

text \<open>
  The relational operators on two strings compare them code unit by code unit; a proper
  prefix is smaller. \<open>a >= b\<close> is the negation of \<open>a < b\<close>, and \<open>a <= b\<close> the negation
  of \<open>b < a\<close>.
\<close>

fun str_lt :: "string \<Rightarrow> string \<Rightarrow> bool" where
  "str_lt [] [] = False"
| "str_lt [] (y # ys) = True"
| "str_lt (x # xs) [] = False"
| "str_lt (x # xs) (y # ys) =
     (if x = y then str_lt xs ys else (of_char x :: nat) < of_char y)"

definition str_ge :: "string \<Rightarrow> string \<Rightarrow> bool" where
  "str_ge a b = (\<not> str_lt a b)"

definition str_le :: "string \<Rightarrow> string \<Rightarrow> bool" where
  "str_le a b = (\<not> str_lt b a)"

subsection \<open>Set objects\<close>

text \<open>
  A \<^verbatim>\<open>Set\<close> keeps its elements in insertion order, and adding an element that is
  already present changes nothing. \<^verbatim>\<open>new Set(array)\<close> adds the elements of the array
  from left to right; \<^verbatim>\<open>Array.from(set)\<close> lists the elements in insertion order. A set
  is modelled as the list of its elements in that order.
\<close>

definition Set_add :: "'a list \<Rightarrow> 'a \<Rightarrow> 'a list" where
  "Set_add s x = (if x \<in> set s then s else s @ [x])"

definition new_Set :: "'a list \<Rightarrow> 'a list" where
  "new_Set xs = foldl Set_add [] xs"

definition Array_from :: "'a list \<Rightarrow> 'a list" where
  "Array_from s = s"

subsection \<open>Date objects\<close>

text \<open>
  The script reads the calendar through \<^verbatim>\<open>new Date(string)\<close> and the getters
  \<^verbatim>\<open>getFullYear\<close>, \<^verbatim>\<open>getMonth\<close> and \<^verbatim>\<open>getDate\<close>. ECMA-262 fixes what they do on
  the format of the data model, \<^verbatim>\<open>YYYY-MM-DD\<close>:
  \<^item> a date-only string denotes midnight UTC of that day, so the time value of the Date is
    the day number since 1970-01-01 times the milliseconds of a day;
  \<^item> the three getters read the date in local time: they add the offset of the host's
    time zone to the time value and then take the calendar parts;
  \<^item> a string that does not parse gives an invalid Date, whose getters return NaN.

  The host's time zone is a parameter \<open>tza\<close> of every function that reads the calendar:
  \<open>tza t\<close> is the offset in milliseconds of local time from UTC at the UTC time \<open>t\<close>.
  A time value is an \<open>int\<close>; \<open>None\<close> stands for the invalid Date, and for NaN where a
  getter returns a number. Only the date-only format is modelled: any other string is
  taken as invalid, and so is a day beyond the length of its month (engines differ
  there; no result below rests on such a string).
\<close>

definition msPerDay :: int where
  "msPerDay = 86400000"

definition InLeapYear :: "int \<Rightarrow> bool" where
  "InLeapYear y = (y mod 4 = 0 \<and> (y mod 100 \<noteq> 0 \<or> y mod 400 = 0))"

definition DaysInMonth :: "int \<Rightarrow> int \<Rightarrow> int" where
  "DaysInMonth y m =
     (if m = 2 then (if InLeapYear y then 29 else 28)
      else if m = 4 \<or> m = 6 \<or> m = 9 \<or> m = 11 then 30 else 31)"

text \<open>
  The day number of a date of the proleptic Gregorian calendar (month \<open>1..12\<close>), counted
  from 1970-01-01, and the date of a day number. Years are taken from March to February
  in eras of 400 years (146097 days), so that the leap day is the last of its year.
\<close>

definition days_from_civil :: "int \<Rightarrow> int \<Rightarrow> int \<Rightarrow> int" where
  "days_from_civil y m d =
     (let y' = (if m \<le> 2 then y - 1 else y);
          era = y' div 400;
          yoe = y' - era * 400;
          doy = (153 * (if m > 2 then m - 3 else m + 9) + 2) div 5 + d - 1;
          doe = yoe * 365 + yoe div 4 - yoe div 100 + doy
      in era * 146097 + doe - 719468)"

definition civil_from_days :: "int \<Rightarrow> int \<times> int \<times> int" where
  "civil_from_days z =
     (let z' = z + 719468;
          era = z' div 146097;
          doe = z' - era * 146097;
          yoe = (doe - doe div 1460 + doe div 36524 - doe div 146096) div 365;
          doy = doe - (365 * yoe + yoe div 4 - yoe div 100);
          mp = (5 * doy + 2) div 153;
          d = doy - (153 * mp + 2) div 5 + 1;
          m = (if mp < 10 then mp + 3 else mp - 9);
          y = yoe + era * 400
      in (if m \<le> 2 then y + 1 else y, m, d))"

definition digit :: "char \<Rightarrow> int option" where
  "digit c =
     (let n = (of_char c :: nat)
      in if 48 \<le> n \<and> n \<le> 57 then Some (int n - 48) else None)"

fun digits :: "int \<Rightarrow> string \<Rightarrow> int option" where
  "digits acc [] = Some acc"
| "digits acc (c # cs) =
     (case digit c of None \<Rightarrow> None | Some d \<Rightarrow> digits (10 * acc + d) cs)"

definition Date_parse :: "string \<Rightarrow> int option" where
  "Date_parse s =
     (if length s = 10 \<and> s ! 4 = CHR ''-'' \<and> s ! 7 = CHR ''-'' then
        (case (digits 0 (take 4 s), digits 0 (take 2 (drop 5 s)), digits 0 (drop 8 s)) of
           (Some y, Some m, Some d) \<Rightarrow>
             if 1 \<le> m \<and> m \<le> 12 \<and> 1 \<le> d \<and> d \<le> DaysInMonth y m
             then Some (days_from_civil y m d * msPerDay) else None
         | _ \<Rightarrow> None)
      else None)"

definition new_Date :: "string \<Rightarrow> int option" where
  "new_Date s = Date_parse s"

definition LocalTime :: "(int \<Rightarrow> int) \<Rightarrow> int \<Rightarrow> int" where
  "LocalTime tza t = t + tza t"

definition Day :: "int \<Rightarrow> int" where
  "Day t = t div msPerDay"

definition LocalDate :: "(int \<Rightarrow> int) \<Rightarrow> int \<Rightarrow> int \<times> int \<times> int" where
  "LocalDate tza t = civil_from_days (Day (LocalTime tza t))"

definition getFullYear :: "(int \<Rightarrow> int) \<Rightarrow> int option \<Rightarrow> int option" where
  "getFullYear tza date =
     (case date of None \<Rightarrow> None
      | Some t \<Rightarrow> (case LocalDate tza t of (y, m, d) \<Rightarrow> Some y))"

text \<open>\<^verbatim>\<open>getMonth\<close> counts the months from 0.\<close>

definition getMonth :: "(int \<Rightarrow> int) \<Rightarrow> int option \<Rightarrow> nat option" where
  "getMonth tza date =
     (case date of None \<Rightarrow> None
      | Some t \<Rightarrow> (case LocalDate tza t of (y, m, d) \<Rightarrow> Some (nat (m - 1))))"

definition getDate :: "(int \<Rightarrow> int) \<Rightarrow> int option \<Rightarrow> int option" where
  "getDate tza date =
     (case date of None \<Rightarrow> None
      | Some t \<Rightarrow> (case LocalDate tza t of (y, m, d) \<Rightarrow> Some d))"

text \<open>Two hosts: one on UTC, one five hours west of it (UTC-05:00) all year.\<close>

definition UTC :: "int \<Rightarrow> int" where
  "UTC t = 0"

definition UTC_minus_5 :: "int \<Rightarrow> int" where
  "UTC_minus_5 t = - 18000000"

subsection \<open>Plain objects used as dictionaries\<close>

text \<open>
  \<^verbatim>\<open>counts[month]\<close> converts the number \<^verbatim>\<open>month\<close> to a property key, a string: the
  decimal digits of the month, or \<^verbatim>\<open>"NaN"\<close>. \<^verbatim>\<open>Object.keys\<close> lists the keys that are
  array indices (canonical decimal strings) first, in ascending numeric order, and the
  other string keys after them, in the order in which they were created. A key is
  modelled by its kind: \<open>Index n\<close> is the string of the digits of \<open>n\<close>, \<open>Name s\<close> the
  string \<open>s\<close>. An object is the list of its properties in creation order; its values
  here are counts.
\<close>

datatype pkey = Index nat | Name string

definition ToPropertyKey :: "nat option \<Rightarrow> pkey" where
  "ToPropertyKey v = (case v of None \<Rightarrow> Name ''NaN'' | Some n \<Rightarrow> Index n)"

type_synonym obj = "(pkey \<times> nat) list"

text \<open>Reading a missing property gives \<^verbatim>\<open>undefined\<close>, here \<open>None\<close>.\<close>

definition obj_get :: "obj \<Rightarrow> pkey \<Rightarrow> nat option" where
  "obj_get ob k = map_of ob k"

text \<open>Writing keeps the place of an existing property and appends a new one.\<close>

fun obj_set :: "obj \<Rightarrow> pkey \<Rightarrow> nat \<Rightarrow> obj" where
  "obj_set [] k v = [(k, v)]"
| "obj_set ((k', v') # ps) k v =
     (if k' = k then (k, v) # ps else (k', v') # obj_set ps k v)"

fun index_keys :: "obj \<Rightarrow> nat list" where
  "index_keys [] = []"
| "index_keys ((Index n, v) # ps) = n # index_keys ps"
| "index_keys ((Name s, v) # ps) = index_keys ps"

fun name_keys :: "obj \<Rightarrow> string list" where
  "name_keys [] = []"
| "name_keys ((Index n, v) # ps) = name_keys ps"
| "name_keys ((Name s, v) # ps) = s # name_keys ps"

definition Object_keys :: "obj \<Rightarrow> pkey list" where
  "Object_keys ob = map Index (sort (index_keys ob)) @ map Name (name_keys ob)"

text \<open>
  \<^verbatim>\<open>x || 0\<close> on a count or \<^verbatim>\<open>undefined\<close>: \<^verbatim>\<open>undefined\<close> and 0 are falsy and give 0,
  any other count gives itself. \<^verbatim>\<open>x > y\<close> is false when either side is \<^verbatim>\<open>undefined\<close>.
\<close>

definition or0 :: "nat option \<Rightarrow> nat" where
  "or0 v = (case v of None \<Rightarrow> 0 | Some c \<Rightarrow> c)"

fun js_gt :: "nat option \<Rightarrow> nat option \<Rightarrow> bool" where
  "js_gt (Some x) (Some y) = (x > y)"
| "js_gt _ _ = False"

subsection \<open>Reduction without an initial value\<close>

text \<open>
  \<^verbatim>\<open>array.reduce(f)\<close> starts from the first element and folds the others from left to
  right; on an empty array it throws a TypeError.
\<close>

datatype js_error = TypeError

definition reduce1 :: "('a \<Rightarrow> 'a \<Rightarrow> 'a) \<Rightarrow> 'a list \<Rightarrow> js_error + 'a" where
  "reduce1 f xs = (case xs of [] \<Rightarrow> Inl TypeError | x # xs' \<Rightarrow> Inr (foldl f x xs'))"

section \<open>The functions of the script\<close>

text \<open>
  In the order of the source. \<^verbatim>\<open>filter\<close>, \<^verbatim>\<open>map\<close> and \<^verbatim>\<open>find\<close> of an array are the list
  functions of the same names; \<^verbatim>\<open>reduce(f, 0)\<close> is \<open>foldl f 0\<close>.
\<close>

definition getUniqueTransactionTypes :: "Transaction list \<Rightarrow> string list" where
  "getUniqueTransactionTypes txs = Array_from (new_Set (map transaction_type txs))"

definition calculateTotalAmount :: "Transaction list \<Rightarrow> real" where
  "calculateTotalAmount txs = foldl (\<lambda>sum t. sum + transaction_amount t) 0 txs"

text \<open>
  An omitted argument is \<^verbatim>\<open>undefined\<close>, here \<open>None\<close>. \<^verbatim>\<open>===\<close> between a getter's result
  and a given number holds when the getter returned that number, and never for NaN.
\<close>

definition calculateTotalAmountByDate ::
  "(int \<Rightarrow> int) \<Rightarrow> Transaction list \<Rightarrow> int option \<Rightarrow> int option \<Rightarrow> int option \<Rightarrow> real" where
  "calculateTotalAmountByDate tza txs year month day =
     foldl (\<lambda>sum t. sum + transaction_amount t) 0
       (filter (\<lambda>t.
          let date = new_Date (transaction_date t);
              matchesYear = (year = None \<or> getFullYear tza date = year);
              matchesMonth =
                (month = None \<or> map_option (\<lambda>m. int m + 1) (getMonth tza date) = month);
              matchesDay = (day = None \<or> getDate tza date = day)
          in matchesYear \<and> matchesMonth \<and> matchesDay) txs)"

definition getTransactionByType :: "Transaction list \<Rightarrow> string \<Rightarrow> Transaction list" where
  "getTransactionByType txs type = filter (\<lambda>t. transaction_type t = type) txs"

definition getTransactionsInDateRange ::
  "Transaction list \<Rightarrow> string \<Rightarrow> string \<Rightarrow> Transaction list" where
  "getTransactionsInDateRange txs startDate endDate =
     filter (\<lambda>t. str_ge (transaction_date t) startDate \<and> str_le (transaction_date t) endDate) txs"

definition getTransactionsByMerchant :: "Transaction list \<Rightarrow> string \<Rightarrow> Transaction list" where
  "getTransactionsByMerchant txs merchantName = filter (\<lambda>t. merchant_name t = merchantName) txs"

definition calculateAverageTransactionAmount :: "Transaction list \<Rightarrow> real" where
  "calculateAverageTransactionAmount txs =
     (if length txs = 0 then 0 else calculateTotalAmount txs / real (length txs))"

definition getTransactionsByAmountRange ::
  "Transaction list \<Rightarrow> real \<Rightarrow> real \<Rightarrow> Transaction list" where
  "getTransactionsByAmountRange txs minAmount maxAmount =
     filter (\<lambda>t. transaction_amount t \<ge> minAmount \<and> transaction_amount t \<le> maxAmount) txs"

definition calculateTotalDebitAmount :: "Transaction list \<Rightarrow> real" where
  "calculateTotalDebitAmount txs =
     foldl (\<lambda>sum t. sum + transaction_amount t) 0
       (filter (\<lambda>t. transaction_type t = ''debit'') txs)"

text \<open>
  \<^verbatim>\<open>findMostTransactionsMonth\<close>: \<open>monthOf\<close> is the constant \<^verbatim>\<open>month\<close> of the loop body,
  \<open>countMonth\<close> the loop body, \<open>monthCounts\<close> the object \<^verbatim>\<open>counts\<close> after the loop. The
  function returns \<^verbatim>\<open>null\<close> (\<open>Inr None\<close>) or a key of \<^verbatim>\<open>counts\<close>.
\<close>

definition monthOf :: "(int \<Rightarrow> int) \<Rightarrow> Transaction \<Rightarrow> nat option" where
  "monthOf tza t = map_option (\<lambda>m. m + 1) (getMonth tza (new_Date (transaction_date t)))"

definition countMonth :: "(int \<Rightarrow> int) \<Rightarrow> obj \<Rightarrow> Transaction \<Rightarrow> obj" where
  "countMonth tza counts t =
     (let month = ToPropertyKey (monthOf tza t)
      in obj_set counts month (or0 (obj_get counts month) + 1))"

definition monthCounts :: "(int \<Rightarrow> int) \<Rightarrow> Transaction list \<Rightarrow> obj" where
  "monthCounts tza txs = foldl (countMonth tza) [] txs"

definition findMostTransactionsMonth ::
  "(int \<Rightarrow> int) \<Rightarrow> Transaction list \<Rightarrow> js_error + pkey option" where
  "findMostTransactionsMonth tza txs =
     (if length txs = 0 then Inr None
      else let counts = monthCounts tza txs
           in map_sum id Some
                (reduce1 (\<lambda>a b. if js_gt (obj_get counts a) (obj_get counts b) then a else b)
                   (Object_keys counts)))"

definition findMostDebitTransactionMonth ::
  "(int \<Rightarrow> int) \<Rightarrow> Transaction list \<Rightarrow> js_error + pkey option" where
  "findMostDebitTransactionMonth tza txs =
     (let debitTransactions = filter (\<lambda>t. transaction_type t = ''debit'') txs
      in findMostTransactionsMonth tza debitTransactions)"

definition mostTransactionTypes :: "Transaction list \<Rightarrow> string" where
  "mostTransactionTypes txs =
     (let debitCount = length (filter (\<lambda>t. transaction_type t = ''debit'') txs);
          creditCount = length (filter (\<lambda>t. transaction_type t = ''credit'') txs)
      in if debitCount > creditCount then ''debit''
         else if creditCount > debitCount then ''credit''
         else ''equal'')"

definition getTransactionsBeforeDate :: "Transaction list \<Rightarrow> string \<Rightarrow> Transaction list" where
  "getTransactionsBeforeDate txs date = filter (\<lambda>t. str_lt (transaction_date t) date) txs"

text \<open>
  \<^verbatim>\<open>Array.prototype.find\<close> returns the first element satisfying the predicate, or
  \<^verbatim>\<open>undefined\<close> (here \<open>None\<close>) when there is none.
\<close>

definition findTransactionById :: "Transaction list \<Rightarrow> string \<Rightarrow> Transaction option" where
  "findTransactionById txs id' = find (\<lambda>t. transaction_id t = id') txs"

definition mapTransactionDescriptions :: "Transaction list \<Rightarrow> string list" where
  "mapTransactionDescriptions txs = map transaction_description txs"

section \<open>Notions used to state the properties\<close>

text \<open>
  The position of the first occurrence of a value in a list (the length of the list when
  it does not occur).
\<close>

definition first_index :: "'a list \<Rightarrow> 'a \<Rightarrow> nat" where
  "first_index xs x = length (takeWhile (\<lambda>y. y \<noteq> x) xs)"

text \<open>The number of transactions of a collection that fall under a month key.\<close>

definition timesSeen :: "(int \<Rightarrow> int) \<Rightarrow> Transaction list \<Rightarrow> pkey \<Rightarrow> nat" where
  "timesSeen tza txs k = length (filter (\<lambda>t. ToPropertyKey (monthOf tza t) = k) txs)"

text \<open>
  Two records of different months, one transaction each: January and February are tied,
  and January is both the first month inserted and the first key listed.
\<close>

definition tie_example :: "Transaction list" where
  "tie_example =
    [\<lparr>transaction_id = ''a'', transaction_date = ''2019-01-15'', transaction_amount = 10,
      transaction_type = ''debit'', transaction_description = ''first'',
      merchant_name = ''M'', card_type = ''debit''\<rparr>,
     \<lparr>transaction_id = ''b'', transaction_date = ''2019-02-15'', transaction_amount = 20,
      transaction_type = ''debit'', transaction_description = ''second'',
      merchant_name = ''M'', card_type = ''debit''\<rparr>]"

section \<open>Sums\<close>

lemma foldl_amount_sum:
  "foldl (\<lambda>sum t. sum + transaction_amount t) a txs
     = a + sum_list (map transaction_amount txs)"
  by (induction txs arbitrary: a) simp_all

lemma calculateTotalAmount_sum:
  "calculateTotalAmount txs = sum_list (map transaction_amount txs)"
  by (simp add: calculateTotalAmount_def foldl_amount_sum)

lemma sum_filter_le:
  "\<forall>t \<in> set txs. 0 \<le> transaction_amount t \<Longrightarrow>
   sum_list (map transaction_amount (filter P txs)) \<le> sum_list (map transaction_amount txs)"
  by (induction txs) auto

text \<open>
  Claim C3: for a non-empty collection the average is the total divided by the number of
  records, and for the empty collection it is 0.
\<close>

theorem average_is_total_over_count:
  "(txs \<noteq> [] \<longrightarrow>
      calculateAverageTransactionAmount txs = calculateTotalAmount txs / real (length txs))
   \<and> calculateAverageTransactionAmount [] = 0"
  by (simp add: calculateAverageTransactionAmount_def)

theorem average_is_total_over_count_witness:
  "transactions \<noteq> []
   \<and> calculateAverageTransactionAmount transactions
       = calculateTotalAmount transactions / real (length transactions)
   \<and> calculateAverageTransactionAmount transactions = 116"
  using average_is_total_over_count [of transactions]
  by (simp add: transactions_def calculateTotalAmount_def)

text \<open>
  Claim C4: when no record has a negative amount, the total of the debit records is at
  most the total of all records.
\<close>

theorem debit_total_le_total:
  "\<forall>t \<in> set txs. 0 \<le> transaction_amount t \<Longrightarrow>
   calculateTotalDebitAmount txs \<le> calculateTotalAmount txs"
  by (simp add: calculateTotalDebitAmount_def calculateTotalAmount_def foldl_amount_sum
      sum_filter_le)

theorem debit_total_le_total_witness:
  "list_all (\<lambda>t. 0 \<le> transaction_amount t) transactions
   \<and> calculateTotalDebitAmount transactions \<le> calculateTotalAmount transactions
   \<and> calculateTotalDebitAmount transactions = 430"
proof -
  have h: "\<forall>t \<in> set transactions. 0 \<le> transaction_amount t"
    by (simp add: transactions_def)
  have "calculateTotalDebitAmount transactions = 430"
    by (simp add: transactions_def calculateTotalDebitAmount_def)
  with h debit_total_le_total [OF h] show ?thesis by (simp add: list_all_iff)
qed

section \<open>Lookup by id\<close>

text \<open>
  Claim C5: when some record has the id, the result is the first such record of the
  collection; when none has it, the result is \<^verbatim>\<open>undefined\<close>. The function has no
  failing branch.
\<close>

theorem findTransactionById_first_or_none:
  "((\<exists>t \<in> set txs. transaction_id t = id') \<longrightarrow>
      (\<exists>i < length txs. findTransactionById txs id' = Some (txs ! i)
          \<and> transaction_id (txs ! i) = id'
          \<and> (\<forall>j < i. transaction_id (txs ! j) \<noteq> id')))
   \<and> ((\<forall>t \<in> set txs. transaction_id t \<noteq> id') \<longrightarrow> findTransactionById txs id' = None)"
proof (intro conjI impI)
  assume "\<exists>t \<in> set txs. transaction_id t = id'"
  then obtain t where "findTransactionById txs id' = Some t"
    unfolding findTransactionById_def
    by (cases "find (\<lambda>t. transaction_id t = id') txs") (auto simp: find_None_iff)
  then show "\<exists>i < length txs. findTransactionById txs id' = Some (txs ! i)
          \<and> transaction_id (txs ! i) = id'
          \<and> (\<forall>j < i. transaction_id (txs ! j) \<noteq> id')"
    unfolding findTransactionById_def by (auto simp: find_Some_iff)
next
  assume "\<forall>t \<in> set txs. transaction_id t \<noteq> id'"
  then show "findTransactionById txs id' = None"
    unfolding findTransactionById_def by (simp add: find_None_iff)
qed

theorem findTransactionById_first_or_none_witness:
  "(\<exists>t \<in> set transactions. transaction_id t = ''3'')
   \<and> findTransactionById transactions ''3'' = Some (transactions ! 2)
   \<and> list_all (\<lambda>t. transaction_id t \<noteq> ''9'') transactions
   \<and> findTransactionById transactions ''9'' = None"
proof -
  have a: "\<exists>t \<in> set transactions. transaction_id t = ''3''"
    by (simp add: transactions_def)
  have b: "\<forall>t \<in> set transactions. transaction_id t \<noteq> ''9''"
    by (simp add: transactions_def)
  have c: "findTransactionById transactions ''3'' = Some (transactions ! 2)"
    by (simp add: transactions_def findTransactionById_def)
  from findTransactionById_first_or_none [of transactions "''9''"] b
  have "findTransactionById transactions ''9'' = None" by blast
  with a b c show ?thesis by (simp add: list_all_iff)
qed

section \<open>Filtering by type\<close>

text \<open>
  Claim C7: every record of the result has the requested type, the result is a
  subsequence of the input (the relative order is kept), and when every record is a
  debit or a credit the two filtered counts add up to the size of the collection.
\<close>

theorem getTransactionByType_sound_ordered_partition:
  "(\<forall>t \<in> set (getTransactionByType txs type). transaction_type t = type)
   \<and> subseq (getTransactionByType txs type) txs
   \<and> ((\<forall>t \<in> set txs. transaction_type t = ''debit'' \<or> transaction_type t = ''credit'') \<longrightarrow>
        length (getTransactionByType txs ''debit'')
          + length (getTransactionByType txs ''credit'') = length txs)"
proof (intro conjI impI)
  show "\<forall>t \<in> set (getTransactionByType txs type). transaction_type t = type"
    by (simp add: getTransactionByType_def)
  show "subseq (getTransactionByType txs type) txs"
    by (simp add: getTransactionByType_def)
next
  assume "\<forall>t \<in> set txs. transaction_type t = ''debit'' \<or> transaction_type t = ''credit''"
  then show "length (getTransactionByType txs ''debit'')
          + length (getTransactionByType txs ''credit'') = length txs"
    unfolding getTransactionByType_def by (induction txs) auto
qed

theorem getTransactionByType_sound_ordered_partition_witness:
  "list_all (\<lambda>t. transaction_type t = ''debit'' \<or> transaction_type t = ''credit'') transactions
   \<and> map transaction_id (getTransactionByType transactions ''debit'') = [''1'', ''3'', ''4'', ''5'']
   \<and> length (getTransactionByType transactions ''debit'')
       + length (getTransactionByType transactions ''credit'') = length transactions"
proof -
  have h: "\<forall>t \<in> set transactions. transaction_type t = ''debit'' \<or> transaction_type t = ''credit''"
    by (simp add: transactions_def)
  have "map transaction_id (getTransactionByType transactions ''debit'') = [''1'', ''3'', ''4'', ''5'']"
    by (simp add: transactions_def getTransactionByType_def)
  with h getTransactionByType_sound_ordered_partition [of transactions "''debit''"]
  show ?thesis by (simp add: list_all_iff)
qed

section \<open>Filtering by date range\<close>

text \<open>
  Claim C8: filtering the result of a range query again with the same bounds gives the
  same sequence.
\<close>

theorem getTransactionsInDateRange_idempotent:
  "getTransactionsInDateRange (getTransactionsInDateRange txs startDate endDate) startDate endDate
     = getTransactionsInDateRange txs startDate endDate"
  by (simp add: getTransactionsInDateRange_def)

section \<open>Unique transaction types\<close>

lemma first_index_append:
  "x \<in> set xs \<Longrightarrow> first_index (xs @ ys) x = first_index xs x"
  by (induction xs) (auto simp: first_index_def)

lemma first_index_less:
  "x \<in> set xs \<Longrightarrow> first_index xs x < length xs"
  by (induction xs) (auto simp: first_index_def)

lemma first_index_fresh:
  "x \<notin> set xs \<Longrightarrow> first_index (xs @ [x]) x = length xs"
  by (induction xs) (auto simp: first_index_def)

lemma new_Set_snoc: "new_Set (xs @ [x]) = Set_add (new_Set xs) x"
  by (simp add: new_Set_def)

lemma new_Set_spec:
  "distinct (new_Set xs) \<and> set (new_Set xs) = set xs
   \<and> sorted_wrt (\<lambda>a b. first_index xs a < first_index xs b) (new_Set xs)"
proof (induction xs rule: rev_induct)
  case Nil
  show ?case by (simp add: new_Set_def)
next
  case (snoc x xs)
  let ?r = "new_Set xs"
  from snoc have d: "distinct ?r" and s: "set ?r = set xs"
    and o: "sorted_wrt (\<lambda>a b. first_index xs a < first_index xs b) ?r"
    by simp_all
  have o': "sorted_wrt (\<lambda>a b. first_index (xs @ [x]) a < first_index (xs @ [x]) b) ?r"
    using o s by (auto intro: sorted_wrt_mono_rel [rotated] simp: first_index_append)
  show ?case
  proof (cases "x \<in> set xs")
    case True
    with d s o' show ?thesis
      by (auto simp: new_Set_snoc Set_add_def)
  next
    case False
    have "\<forall>a \<in> set ?r. first_index (xs @ [x]) a < first_index (xs @ [x]) x"
      using s False by (simp add: first_index_append first_index_fresh first_index_less)
    with False d s o' show ?thesis
      by (auto simp: new_Set_snoc Set_add_def sorted_wrt_append)
  qed
qed

text \<open>
  Claim C10: the result has no duplicates, contains exactly the transaction types that
  occur in the collection, and lists them by the position of their first occurrence.
\<close>

theorem getUniqueTransactionTypes_distinct_first_occurrence:
  "distinct (getUniqueTransactionTypes txs)
   \<and> set (getUniqueTransactionTypes txs) = set (map transaction_type txs)
   \<and> sorted_wrt (\<lambda>a b. first_index (map transaction_type txs) a
                        < first_index (map transaction_type txs) b)
        (getUniqueTransactionTypes txs)"
  unfolding getUniqueTransactionTypes_def Array_from_def
  by (rule new_Set_spec)

theorem getUniqueTransactionTypes_distinct_first_occurrence_witness:
  "getUniqueTransactionTypes transactions = [''debit'', ''credit'']
   \<and> distinct (getUniqueTransactionTypes transactions)
   \<and> first_index (map transaction_type transactions) ''debit'' = 0
   \<and> first_index (map transaction_type transactions) ''credit'' = 1"
proof -
  have "getUniqueTransactionTypes transactions = [''debit'', ''credit'']"
    by (simp add: transactions_def getUniqueTransactionTypes_def Array_from_def
        new_Set_def Set_add_def)
  moreover have "first_index (map transaction_type transactions) ''debit'' = 0"
    "first_index (map transaction_type transactions) ''credit'' = 1"
    by (simp_all add: transactions_def first_index_def)
  ultimately show ?thesis
    using getUniqueTransactionTypes_distinct_first_occurrence [of transactions] by simp
qed

section \<open>Counting transactions by month\<close>

lemma map_of_obj_set: "map_of (obj_set ob k v) = (map_of ob)(k \<mapsto> v)"
  by (induction ob) (auto simp: fun_eq_iff)

lemma obj_get_obj_set: "obj_get (obj_set ob k v) k' = (if k' = k then Some v else obj_get ob k')"
  by (simp add: obj_get_def map_of_obj_set)

lemma timesSeen_snoc:
  "timesSeen tza (txs @ [t]) k
     = timesSeen tza txs k + (if ToPropertyKey (monthOf tza t) = k then 1 else 0)"
  by (simp add: timesSeen_def)

lemma monthCounts_snoc: "monthCounts tza (txs @ [t]) = countMonth tza (monthCounts tza txs) t"
  by (simp add: monthCounts_def)

lemma monthCounts_get:
  "obj_get (monthCounts tza txs) k
     = (if timesSeen tza txs k = 0 then None else Some (timesSeen tza txs k))"
proof (induction txs arbitrary: k rule: rev_induct)
  case Nil
  show ?case by (simp add: monthCounts_def timesSeen_def obj_get_def)
next
  case (snoc t txs)
  show ?case
    by (simp add: monthCounts_snoc countMonth_def Let_def obj_get_obj_set snoc.IH
        timesSeen_snoc or0_def)
qed

lemma monthCounts_keys:
  "fst ` set (monthCounts tza txs) = {k. 0 < timesSeen tza txs k}"
proof -
  have "fst ` set (monthCounts tza txs) = dom (map_of (monthCounts tza txs))"
    by (simp add: dom_map_of_conv_image_fst)
  also have "\<dots> = {k. 0 < timesSeen tza txs k}"
    using monthCounts_get [of tza txs] by (auto simp: obj_get_def dom_def)
  finally show ?thesis .
qed

lemma set_index_keys: "set (index_keys ob) = {n. Index n \<in> fst ` set ob}"
  by (induction ob rule: index_keys.induct) auto

lemma set_name_keys: "set (name_keys ob) = {s. Name s \<in> fst ` set ob}"
  by (induction ob rule: name_keys.induct) auto

lemma set_Object_keys: "set (Object_keys ob) = fst ` set ob"
proof (rule set_eqI)
  fix k show "k \<in> set (Object_keys ob) \<longleftrightarrow> k \<in> fst ` set ob"
    by (cases k) (auto simp: Object_keys_def set_index_keys set_name_keys)
qed

lemma reduce_last_max:
  fixes cnt :: "'a \<Rightarrow> nat"
  assumes "xs \<noteq> []"
  shows "\<exists>i < length xs.
           foldl (\<lambda>a b. if cnt a > cnt b then a else b) (hd xs) (tl xs) = xs ! i
         \<and> (\<forall>j < length xs. cnt (xs ! j) \<le> cnt (xs ! i))
         \<and> (\<forall>j < length xs. i < j \<longrightarrow> cnt (xs ! j) < cnt (xs ! i))"
  using assms
proof (induction xs rule: rev_nonempty_induct)
  case (single x)
  show ?case by simp
next
  case (snoc x xs)
  let ?f = "\<lambda>a b. if cnt a > cnt b then a else b"
  from snoc obtain i where i: "i < length xs" "foldl ?f (hd xs) (tl xs) = xs ! i"
    and mx: "\<forall>j < length xs. cnt (xs ! j) \<le> cnt (xs ! i)"
    and lt: "\<forall>j < length xs. i < j \<longrightarrow> cnt (xs ! j) < cnt (xs ! i)"
    by blast
  have step: "foldl ?f (hd (xs @ [x])) (tl (xs @ [x])) = ?f (xs ! i) x"
    using snoc.hyps i by simp
  show ?case
  proof (cases "cnt (xs ! i) > cnt x")
    case True
    have "foldl ?f (hd (xs @ [x])) (tl (xs @ [x])) = (xs @ [x]) ! i"
      using i True by (simp add: step nth_append)
    moreover have "\<forall>j < length (xs @ [x]). cnt ((xs @ [x]) ! j) \<le> cnt ((xs @ [x]) ! i)"
      using i mx True by (auto simp: nth_append less_Suc_eq)
    moreover have "\<forall>j < length (xs @ [x]). i < j \<longrightarrow> cnt ((xs @ [x]) ! j) < cnt ((xs @ [x]) ! i)"
      using i lt True by (auto simp: nth_append less_Suc_eq)
    moreover have "i < length (xs @ [x])" using i by simp
    ultimately show ?thesis by blast
  next
    case False
    have "foldl ?f (hd (xs @ [x])) (tl (xs @ [x])) = (xs @ [x]) ! length xs"
      using False by (simp add: step)
    moreover have "\<forall>j < length (xs @ [x]). cnt ((xs @ [x]) ! j) \<le> cnt ((xs @ [x]) ! length xs)"
    proof (intro allI impI)
      fix j assume "j < length (xs @ [x])"
      then consider "j < length xs" | "j = length xs" by fastforce
      then show "cnt ((xs @ [x]) ! j) \<le> cnt ((xs @ [x]) ! length xs)"
      proof cases
        case 1
        with mx have "cnt (xs ! j) \<le> cnt (xs ! i)" by blast
        with False 1 show ?thesis by (simp add: nth_append)
      next
        case 2
        then show ?thesis by simp
      qed
    qed
    moreover have "\<forall>j < length (xs @ [x]). length xs < j \<longrightarrow>
        cnt ((xs @ [x]) ! j) < cnt ((xs @ [x]) ! length xs)"
      by simp
    moreover have "length xs < length (xs @ [x])" by simp
    ultimately show ?thesis by blast
  qed
qed

lemma timesSeen_pos_iff:
  "0 < timesSeen tza txs k \<longleftrightarrow> (\<exists>t \<in> set txs. ToPropertyKey (monthOf tza t) = k)"
  by (auto simp: timesSeen_def filter_empty_conv)

lemma set_month_keys:
  "set (Object_keys (monthCounts tza txs)) = {k. 0 < timesSeen tza txs k}"
  by (simp add: set_Object_keys monthCounts_keys)

lemma month_keys_nonempty:
  assumes "txs \<noteq> []"
  shows "Object_keys (monthCounts tza txs) \<noteq> []"
proof -
  from assms have "hd txs \<in> set txs" by simp
  then have "0 < timesSeen tza txs (ToPropertyKey (monthOf tza (hd txs)))"
    unfolding timesSeen_pos_iff by blast
  then have "ToPropertyKey (monthOf tza (hd txs)) \<in> set (Object_keys (monthCounts tza txs))"
    by (simp add: set_month_keys)
  then show ?thesis by auto
qed

lemma js_gt_counts:
  assumes "b \<in> set (Object_keys (monthCounts tza txs))"
  shows "js_gt (obj_get (monthCounts tza txs) a) (obj_get (monthCounts tza txs) b)
           = (timesSeen tza txs a > timesSeen tza txs b)"
proof -
  from assms have "0 < timesSeen tza txs b" by (simp add: set_month_keys)
  then show ?thesis by (simp add: monthCounts_get)
qed

lemma reduce1_nonempty: "xs \<noteq> [] \<Longrightarrow> reduce1 f xs = Inr (foldl f (hd xs) (tl xs))"
  by (cases xs) (simp_all add: reduce1_def)

lemma findMostTransactionsMonth_pick:
  assumes "txs \<noteq> []"
  shows "findMostTransactionsMonth tza txs
     = Inr (Some (foldl (\<lambda>a b. if timesSeen tza txs a > timesSeen tza txs b then a else b)
                   (hd (Object_keys (monthCounts tza txs)))
                   (tl (Object_keys (monthCounts tza txs)))))"
proof -
  let ?C = "monthCounts tza txs"
  let ?ks = "Object_keys ?C"
  have ne: "?ks \<noteq> []" using assms by (rule month_keys_nonempty)
  have "foldl (\<lambda>a b. if js_gt (obj_get ?C a) (obj_get ?C b) then a else b) (hd ?ks) (tl ?ks)
      = foldl (\<lambda>a b. if timesSeen tza txs a > timesSeen tza txs b then a else b) (hd ?ks) (tl ?ks)"
  proof (rule foldl_cong [OF refl refl])
    fix a x assume "x \<in> set (tl ?ks)"
    then have "x \<in> set ?ks" by (rule list.set_sel(2) [OF ne])
    then show "(if js_gt (obj_get ?C a) (obj_get ?C x) then a else x)
        = (if timesSeen tza txs a > timesSeen tza txs x then a else x)"
      by (simp add: js_gt_counts)
  qed
  with assms ne show ?thesis
    by (simp add: findMostTransactionsMonth_def Let_def reduce1_nonempty)
qed

lemma findMost_positions:
  assumes "txs \<noteq> []"
  shows "\<exists>i < length (Object_keys (monthCounts tza txs)).
        findMostTransactionsMonth tza txs = Inr (Some (Object_keys (monthCounts tza txs) ! i))
      \<and> (\<forall>j < length (Object_keys (monthCounts tza txs)).
            timesSeen tza txs (Object_keys (monthCounts tza txs) ! j)
              \<le> timesSeen tza txs (Object_keys (monthCounts tza txs) ! i))
      \<and> (\<forall>j < length (Object_keys (monthCounts tza txs)). i < j \<longrightarrow>
            timesSeen tza txs (Object_keys (monthCounts tza txs) ! j)
              < timesSeen tza txs (Object_keys (monthCounts tza txs) ! i))"
  using reduce_last_max [OF month_keys_nonempty [OF assms, of tza], where cnt = "timesSeen tza txs"]
  by (simp add: findMostTransactionsMonth_pick [OF assms])

lemma month_keys_all_index:
  assumes "\<forall>t \<in> set txs. monthOf tza t \<noteq> None"
  shows "Object_keys (monthCounts tza txs) = map Index (sort (index_keys (monthCounts tza txs)))"
proof -
  have "\<And>s. Name s \<notin> fst ` set (monthCounts tza txs)"
  proof
    fix s assume "Name s \<in> fst ` set (monthCounts tza txs)"
    then have "0 < timesSeen tza txs (Name s)" by (simp add: monthCounts_keys)
    then obtain t where "t \<in> set txs" "ToPropertyKey (monthOf tza t) = Name s"
      unfolding timesSeen_pos_iff by blast
    with assms show False by (auto simp: ToPropertyKey_def split: option.splits)
  qed
  then have "set (name_keys (monthCounts tza txs)) = {}"
    by (simp add: set_name_keys)
  then show ?thesis by (simp add: Object_keys_def)
qed

lemma findMost_greatest_month:
  assumes ne: "txs \<noteq> []" and valid: "\<forall>t \<in> set txs. monthOf tza t \<noteq> None"
  shows "\<exists>n. findMostTransactionsMonth tza txs = Inr (Some (Index n))
      \<and> 0 < timesSeen tza txs (Index n)
      \<and> (\<forall>m. timesSeen tza txs (Index m) \<le> timesSeen tza txs (Index n))
      \<and> (\<forall>m. timesSeen tza txs (Index m) = timesSeen tza txs (Index n) \<longrightarrow> m \<le> n)"
proof -
  let ?ks = "Object_keys (monthCounts tza txs)"
  let ?ms = "sort (index_keys (monthCounts tza txs))"
  let ?c = "timesSeen tza txs"
  have ks: "?ks = map Index ?ms" using valid by (rule month_keys_all_index)
  from findMost_positions [OF ne, of tza] obtain i where i: "i < length ?ks"
    and r: "findMostTransactionsMonth tza txs = Inr (Some (?ks ! i))"
    and mx: "\<forall>j < length ?ks. ?c (?ks ! j) \<le> ?c (?ks ! i)"
    and lt: "\<forall>j < length ?ks. i < j \<longrightarrow> ?c (?ks ! j) < ?c (?ks ! i)"
    by blast
  have im: "i < length ?ms" using i ks by (metis length_map)
  have ki: "?ks ! i = Index (?ms ! i)" using im ks by simp
  have "?ks ! i \<in> set ?ks" using i by simp
  then have pos: "0 < ?c (Index (?ms ! i))" by (simp add: set_month_keys ki del: set_map)
  have le: "?c (Index m) \<le> ?c (Index (?ms ! i))" for m
  proof (cases "0 < ?c (Index m)")
    case True
    then have "Index m \<in> set ?ks" by (simp add: set_month_keys)
    then obtain j where "j < length ?ks" "?ks ! j = Index m" by (auto simp: in_set_conv_nth)
    with mx ki show ?thesis by metis
  next
    case False
    then show ?thesis by simp
  qed
  have last: "m \<le> ?ms ! i" if tie: "?c (Index m) = ?c (Index (?ms ! i))" for m
  proof -
    from tie pos have "Index m \<in> set ?ks" by (simp add: set_month_keys)
    then obtain j where j: "j < length ?ks" "?ks ! j = Index m" by (auto simp: in_set_conv_nth)
    have jm: "j < length ?ms" using j(1) ks by (metis length_map)
    have mj: "m = ?ms ! j" using j(2) jm ks by simp
    have "\<not> i < j"
    proof
      assume "i < j"
      with lt j have "?c (Index m) < ?c (?ks ! i)" by metis
      with tie ki show False by simp
    qed
    then have "j \<le> i" by simp
    then have "?ms ! j \<le> ?ms ! i" using im by (simp add: sorted_nth_mono)
    with mj show ?thesis by simp
  qed
  from r ki pos le last show ?thesis by auto
qed

section \<open>Evaluating the calendar on the sample dates\<close>

lemmas parse_defs = new_Date_def Date_parse_def digit_def DaysInMonth_def InLeapYear_def
  days_from_civil_def msPerDay_def

lemma new_Date_sample:
  "new_Date ''2019-01-01'' = Some 1546300800000"
  "new_Date ''2019-01-05'' = Some 1546646400000"
  "new_Date ''2019-02-10'' = Some 1549756800000"
  "new_Date ''2019-02-15'' = Some 1550188800000"
  "new_Date ''2019-03-20'' = Some 1553040000000"
  "new_Date ''2019-01-15'' = Some 1547510400000"
  by (simp_all add: parse_defs)

lemma civil_from_days_sample:
  "civil_from_days 17896 = (2018, 12, 31)"
  "civil_from_days 17897 = (2019, 1, 1)"
  "civil_from_days 17900 = (2019, 1, 4)"
  "civil_from_days 17901 = (2019, 1, 5)"
  "civil_from_days 17936 = (2019, 2, 9)"
  "civil_from_days 17937 = (2019, 2, 10)"
  "civil_from_days 17941 = (2019, 2, 14)"
  "civil_from_days 17942 = (2019, 2, 15)"
  "civil_from_days 17974 = (2019, 3, 19)"
  "civil_from_days 17975 = (2019, 3, 20)"
  "civil_from_days 17910 = (2019, 1, 14)"
  "civil_from_days 17911 = (2019, 1, 15)"
  unfolding civil_from_days_def Let_def by simp_all

lemma Day_LocalTime:
  assumes "t mod msPerDay = 0" and "- msPerDay < tza t" and "tza t < msPerDay"
  shows "Day (LocalTime tza t) = (if tza t < 0 then t div msPerDay - 1 else t div msPerDay)"
proof (cases "tza t < 0")
  case True
  have "t + tza t = msPerDay * (t div msPerDay - 1) + (tza t + msPerDay)"
    using assms(1) by (simp add: algebra_simps mod_eq_0_iff_dvd)
  moreover have "0 \<le> tza t + msPerDay" "tza t + msPerDay < msPerDay"
    using assms(2) True by simp_all
  ultimately have "(t + tza t) div msPerDay = t div msPerDay - 1"
    by (rule int_div_pos_eq)
  with True show ?thesis by (simp add: Day_def LocalTime_def)
next
  case False
  have "t + tza t = msPerDay * (t div msPerDay) + tza t"
    using assms(1) by (simp add: mod_eq_0_iff_dvd)
  moreover have "0 \<le> tza t" using False by simp
  ultimately have "(t + tza t) div msPerDay = t div msPerDay"
    using assms(3) by (rule int_div_pos_eq)
  with False show ?thesis by (simp add: Day_def LocalTime_def)
qed

lemma LocalDate_sample:
  assumes "\<forall>t. - msPerDay < tza t \<and> tza t < msPerDay"
  shows "LocalDate tza 1546300800000 = (if tza 1546300800000 < 0 then (2018, 12, 31) else (2019, 1, 1))"
    and "LocalDate tza 1546646400000 = (if tza 1546646400000 < 0 then (2019, 1, 4) else (2019, 1, 5))"
    and "LocalDate tza 1549756800000 = (if tza 1549756800000 < 0 then (2019, 2, 9) else (2019, 2, 10))"
    and "LocalDate tza 1550188800000 = (if tza 1550188800000 < 0 then (2019, 2, 14) else (2019, 2, 15))"
    and "LocalDate tza 1553040000000 = (if tza 1553040000000 < 0 then (2019, 3, 19) else (2019, 3, 20))"
    and "LocalDate tza 1547510400000 = (if tza 1547510400000 < 0 then (2019, 1, 14) else (2019, 1, 15))"
  using assms
  by (simp_all add: LocalDate_def Day_LocalTime civil_from_days_sample msPerDay_def)

lemma monthOf_sample:
  assumes "\<forall>t. - msPerDay < tza t \<and> tza t < msPerDay"
  shows "map (monthOf tza) transactions
          = [Some (if tza 1546300800000 < 0 then 12 else 1), Some 1, Some 2, Some 2, Some 3]"
  by (simp add: transactions_def monthOf_def getMonth_def new_Date_sample
      LocalDate_sample [OF assms])

lemma monthOf_tie_example:
  assumes "\<forall>t. - msPerDay < tza t \<and> tza t < msPerDay"
  shows "map (monthOf tza) tie_example = [Some 1, Some 2]"
  by (simp add: tie_example_def monthOf_def getMonth_def new_Date_sample
      LocalDate_sample [OF assms])

lemma monthCounts_by_month:
  "monthCounts tza txs
     = foldl (\<lambda>counts m. obj_set counts (ToPropertyKey m)
                             (or0 (obj_get counts (ToPropertyKey m)) + 1)) []
         (map (monthOf tza) txs)"
proof -
  have "countMonth tza = (\<lambda>counts t. obj_set counts (ToPropertyKey (monthOf tza t))
                             (or0 (obj_get counts (ToPropertyKey (monthOf tza t))) + 1))"
    by (intro ext) (simp add: countMonth_def Let_def)
  then show ?thesis by (simp add: monthCounts_def foldl_map)
qed

lemma monthCounts_sample:
  assumes "\<forall>t. - msPerDay < tza t \<and> tza t < msPerDay"
  shows "monthCounts tza transactions
     = (if tza 1546300800000 < 0
        then [(Index 12, 1), (Index 1, 1), (Index 2, 2), (Index 3, 1)]
        else [(Index 1, 2), (Index 2, 2), (Index 3, 1)])"
  by (simp add: monthCounts_by_month monthOf_sample [OF assms] ToPropertyKey_def
      obj_get_def or0_def)

lemma findMost_sample:
  assumes "\<forall>t. - msPerDay < tza t \<and> tza t < msPerDay"
  shows "findMostTransactionsMonth tza transactions = Inr (Some (Index 2))"
proof -
  have "length transactions \<noteq> 0" by (simp add: transactions_def)
  then show ?thesis
    by (simp add: findMostTransactionsMonth_def monthCounts_sample [OF assms]
        Object_keys_def reduce1_def obj_get_def)
qed

lemma monthCounts_tie:
  assumes "\<forall>t. - msPerDay < tza t \<and> tza t < msPerDay"
  shows "monthCounts tza tie_example = [(Index 1, 1), (Index 2, 1)]"
  by (simp add: monthCounts_by_month monthOf_tie_example [OF assms] ToPropertyKey_def
      obj_get_def or0_def)

lemma UTC_bounded: "\<forall>t. - msPerDay < UTC t \<and> UTC t < msPerDay"
  by (simp add: UTC_def msPerDay_def)

lemma UTC_minus_5_bounded: "\<forall>t. - msPerDay < UTC_minus_5 t \<and> UTC_minus_5 t < msPerDay"
  by (simp add: UTC_minus_5_def msPerDay_def)

lemma timesSeen_tie_example:
  "timesSeen UTC tie_example (Index 1) = 1" "timesSeen UTC tie_example (Index 2) = 1"
proof -
  have "map (\<lambda>t. ToPropertyKey (monthOf UTC t)) tie_example = [Index 1, Index 2]"
    using monthOf_tie_example [OF UTC_bounded] by (simp add: tie_example_def ToPropertyKey_def)
  then show "timesSeen UTC tie_example (Index 1) = 1" "timesSeen UTC tie_example (Index 2) = 1"
    by (simp_all add: timesSeen_def tie_example_def)
qed

lemma findMost_tie_example:
  "findMostTransactionsMonth UTC tie_example = Inr (Some (Index 2))"
proof -
  have "length tie_example \<noteq> 0" by (simp add: tie_example_def)
  then show ?thesis
    by (simp add: findMostTransactionsMonth_def monthCounts_tie [OF UTC_bounded]
        Object_keys_def reduce1_def obj_get_def)
qed

lemma sample_totals:
  "calculateTotalAmount transactions = 580"
  "calculateTotalDebitAmount transactions = 430"
  "calculateAverageTransactionAmount transactions = 116"
  "mostTransactionTypes transactions = ''debit''"
  by (simp_all add: transactions_def calculateTotalAmount_def calculateTotalDebitAmount_def
      calculateAverageTransactionAmount_def mostTransactionTypes_def)

lemma byDate_sample_west:
  "calculateTotalAmountByDate UTC_minus_5 transactions (Some 2019) (Some 1) None = 150"
  by (simp add: calculateTotalAmountByDate_def transactions_def new_Date_sample
      getFullYear_def getMonth_def getDate_def LocalDate_sample [OF UTC_minus_5_bounded]
      UTC_minus_5_def)

lemma byDate_sample_utc:
  "calculateTotalAmountByDate UTC transactions (Some 2019) (Some 1) None = 250"
  by (simp add: calculateTotalAmountByDate_def transactions_def new_Date_sample
      getFullYear_def getMonth_def getDate_def LocalDate_sample [OF UTC_bounded]
      UTC_def)

lemma getters_first_record_west:
  "getFullYear UTC_minus_5 (new_Date ''2019-01-01'') = Some 2018"
  "getMonth UTC_minus_5 (new_Date ''2019-01-01'') = Some 11"
  "getDate UTC_minus_5 (new_Date ''2019-01-01'') = Some 31"
  by (simp_all add: new_Date_sample getFullYear_def getMonth_def getDate_def
      LocalDate_sample [OF UTC_minus_5_bounded] UTC_minus_5_def)

section \<open>The month with the most transactions\<close>

text \<open>
  Claim C1, as stated: among months tied for the highest count the function returns the
  key met first, in insertion or in iteration order. It does not. In \<open>tie_example\<close>
  January and February have one transaction each, key 1 is created first and listed
  first, and the function returns key 2: the callback of the reduction keeps its
  accumulator only when the accumulator's count is strictly greater, so a later key with
  an equal count replaces it.
\<close>

theorem findMostTransactionsMonth_first_tied_counterexample:
  "map fst (monthCounts UTC tie_example) = [Index 1, Index 2]
   \<and> Object_keys (monthCounts UTC tie_example) = [Index 1, Index 2]
   \<and> timesSeen UTC tie_example (Index 1) = 1
   \<and> timesSeen UTC tie_example (Index 2) = 1
   \<and> findMostTransactionsMonth UTC tie_example = Inr (Some (Index 2))
   \<and> findMostTransactionsMonth UTC tie_example \<noteq> Inr (Some (Index 1))"
proof -
  have "map fst (monthCounts UTC tie_example) = [Index 1, Index 2]"
    by (simp add: monthCounts_tie [OF UTC_bounded])
  moreover have "Object_keys (monthCounts UTC tie_example) = [Index 1, Index 2]"
    by (simp add: monthCounts_tie [OF UTC_bounded] Object_keys_def)
  moreover have "findMostTransactionsMonth UTC tie_example \<noteq> Inr (Some (Index 1))"
    by (simp add: findMost_tie_example)
  ultimately show ?thesis
    using timesSeen_tie_example findMost_tie_example by blast
qed

text \<open>
  Claim C1, amended: for the empty collection the function returns \<^verbatim>\<open>null\<close>. For a
  non-empty collection it returns the key of \<^verbatim>\<open>Object.keys(counts)\<close> that has the highest
  count and stands last among the keys with that count: no key has a greater count, and
  every key listed after it has a strictly smaller one. The keys of months are listed in
  ascending numeric order, so when every date parses the result is the greatest month
  number among the months tied for the highest count.
\<close>

theorem findMostTransactionsMonth_last_tied:
  "findMostTransactionsMonth tza [] = Inr None
   \<and> (txs \<noteq> [] \<longrightarrow>
        (\<exists>i < length (Object_keys (monthCounts tza txs)).
            findMostTransactionsMonth tza txs = Inr (Some (Object_keys (monthCounts tza txs) ! i))
          \<and> (\<forall>j < length (Object_keys (monthCounts tza txs)).
                timesSeen tza txs (Object_keys (monthCounts tza txs) ! j)
                  \<le> timesSeen tza txs (Object_keys (monthCounts tza txs) ! i))
          \<and> (\<forall>j < length (Object_keys (monthCounts tza txs)). i < j \<longrightarrow>
                timesSeen tza txs (Object_keys (monthCounts tza txs) ! j)
                  < timesSeen tza txs (Object_keys (monthCounts tza txs) ! i))))
   \<and> (txs \<noteq> [] \<and> (\<forall>t \<in> set txs. monthOf tza t \<noteq> None) \<longrightarrow>
        (\<exists>n. findMostTransactionsMonth tza txs = Inr (Some (Index n))
          \<and> 0 < timesSeen tza txs (Index n)
          \<and> (\<forall>m. timesSeen tza txs (Index m) \<le> timesSeen tza txs (Index n))
          \<and> (\<forall>m. timesSeen tza txs (Index m) = timesSeen tza txs (Index n) \<longrightarrow> m \<le> n)))"
proof (intro conjI impI)
  show "findMostTransactionsMonth tza [] = Inr None"
    by (simp add: findMostTransactionsMonth_def)
next
  assume "txs \<noteq> []"
  then show "\<exists>i < length (Object_keys (monthCounts tza txs)).
            findMostTransactionsMonth tza txs = Inr (Some (Object_keys (monthCounts tza txs) ! i))
          \<and> (\<forall>j < length (Object_keys (monthCounts tza txs)).
                timesSeen tza txs (Object_keys (monthCounts tza txs) ! j)
                  \<le> timesSeen tza txs (Object_keys (monthCounts tza txs) ! i))
          \<and> (\<forall>j < length (Object_keys (monthCounts tza txs)). i < j \<longrightarrow>
                timesSeen tza txs (Object_keys (monthCounts tza txs) ! j)
                  < timesSeen tza txs (Object_keys (monthCounts tza txs) ! i))"
    by (rule findMost_positions)
next
  assume "txs \<noteq> [] \<and> (\<forall>t \<in> set txs. monthOf tza t \<noteq> None)"
  then show "\<exists>n. findMostTransactionsMonth tza txs = Inr (Some (Index n))
          \<and> 0 < timesSeen tza txs (Index n)
          \<and> (\<forall>m. timesSeen tza txs (Index m) \<le> timesSeen tza txs (Index n))
          \<and> (\<forall>m. timesSeen tza txs (Index m) = timesSeen tza txs (Index n) \<longrightarrow> m \<le> n)"
    using findMost_greatest_month [of txs tza] by blast
qed

theorem findMostTransactionsMonth_last_tied_witness:
  "tie_example \<noteq> []
   \<and> list_all (\<lambda>t. monthOf UTC t \<noteq> None) tie_example
   \<and> findMostTransactionsMonth UTC tie_example = Inr (Some (Index 2))
   \<and> (\<exists>n. findMostTransactionsMonth UTC tie_example = Inr (Some (Index n))
          \<and> 0 < timesSeen UTC tie_example (Index n)
          \<and> (\<forall>m. timesSeen UTC tie_example (Index m) = timesSeen UTC tie_example (Index n)
                \<longrightarrow> m \<le> n))"
proof -
  have ne: "tie_example \<noteq> []" by (simp add: tie_example_def)
  have "list_all (\<lambda>t. monthOf UTC t \<noteq> None) tie_example \<longleftrightarrow>
          list_all (\<lambda>m. m \<noteq> None) (map (monthOf UTC) tie_example)"
    by (simp add: list_all_iff)
  then have valid: "list_all (\<lambda>t. monthOf UTC t \<noteq> None) tie_example"
    by (simp add: monthOf_tie_example [OF UTC_bounded])
  then have "\<forall>t \<in> set tie_example. monthOf UTC t \<noteq> None"
    by (simp add: list_all_iff)
  with ne findMostTransactionsMonth_last_tied [of UTC tie_example]
  have "\<exists>n. findMostTransactionsMonth UTC tie_example = Inr (Some (Index n))
          \<and> 0 < timesSeen UTC tie_example (Index n)
          \<and> (\<forall>m. timesSeen UTC tie_example (Index m) = timesSeen UTC tie_example (Index n)
                \<longrightarrow> m \<le> n)"
    by blast
  with ne valid findMost_tie_example show ?thesis by blast
qed

section \<open>The sample dataset\<close>

text \<open>
  Claim C2: on the five sample records the total is 580, the debit total 430, the
  average 116, the dominant type \<^verbatim>\<open>debit\<close>, and the month with the most transactions
  is month 2 (the key \<^verbatim>\<open>"2"\<close>). The last holds on every host whose offset from UTC is
  less than a day: east of UTC January and February both have two transactions and the
  later key wins the tie; west of UTC the first record falls into December and February
  alone has two.
\<close>

theorem sample_dataset_values:
  assumes "\<forall>t. - msPerDay < tza t \<and> tza t < msPerDay"
  shows "calculateTotalAmount transactions = 580
   \<and> calculateTotalDebitAmount transactions = 430
   \<and> calculateAverageTransactionAmount transactions = 116
   \<and> mostTransactionTypes transactions = ''debit''
   \<and> findMostTransactionsMonth tza transactions = Inr (Some (Index 2))"
  by (simp add: sample_totals findMost_sample [OF assms])

theorem sample_dataset_values_witness:
  "(\<forall>t. - msPerDay < UTC t \<and> UTC t < msPerDay)
   \<and> calculateTotalAmount transactions = 580
   \<and> calculateTotalDebitAmount transactions = 430
   \<and> calculateAverageTransactionAmount transactions = 116
   \<and> mostTransactionTypes transactions = ''debit''
   \<and> findMostTransactionsMonth UTC transactions = Inr (Some (Index 2))"
  using UTC_bounded sample_dataset_values [OF UTC_bounded] by blast

section \<open>Totals by date parts\<close>

text \<open>
  Claim C9: with year, month and day all omitted, the total by date is the total of all
  records.
\<close>

theorem calculateTotalAmountByDate_no_parts:
  "calculateTotalAmountByDate tza txs None None None = calculateTotalAmount txs"
  by (simp add: calculateTotalAmountByDate_def calculateTotalAmount_def)

text \<open>
  Claim C6 says that the total by date sums the records whose calendar date matches the
  given parts, and that on the sample \<^verbatim>\<open>calculateTotalAmountByDate(txs, 2019, 1)\<close> is
  250. The function parses the date string as midnight UTC and then reads its parts in
  local time. On a host west of UTC the record of 2019-01-01 is read as 31 December
  2018 and is left out of January 2019: the total is 150. On a host on UTC it is 250.
\<close>

theorem calculateTotalAmountByDate_sample_west_of_UTC:
  "calculateTotalAmountByDate UTC_minus_5 transactions (Some 2019) (Some 1) None = 150
   \<and> getFullYear UTC_minus_5 (new_Date ''2019-01-01'') = Some 2018
   \<and> getMonth UTC_minus_5 (new_Date ''2019-01-01'') = Some 11
   \<and> getDate UTC_minus_5 (new_Date ''2019-01-01'') = Some 31
   \<and> calculateTotalAmountByDate UTC transactions (Some 2019) (Some 1) None = 250"
  by (simp add: byDate_sample_west byDate_sample_utc getters_first_record_west)

end
